theory Spec2Isabelle
  imports Main "HOL-Library.Word" "HOL-Library.Multiset"
begin

section \<open>Shared types\<close>

text \<open>
  A Go \<open>[]byte\<close> and a Go \<open>string\<close> are both sequences of bytes; they are modelled as
  \<open>string\<close> (a list of 8-bit characters). The \<open>nil\<close> slice is the empty list.
\<close>

type_synonym bytes = string

text \<open>
  A Go \<open>interface{}\<close> value as the repository meets it: what \<open>encoding/json\<close> (or the
  configuration loader) decodes into an empty interface. A JSON number decodes to a
  \<open>float64\<close>, kept here by its 64 bits; a JSON object decodes to a
  \<open>map[string]interface{}\<close>, kept as an association list.
\<close>

datatype any =
    Nil
  | Bool bool
  | Float64 "64 word"
  | String string
  | Slice "any list"
  | Map "(string \<times> any) list"

text \<open>
  A Go map whose entries the code goes through or counts is kept as an association list,
  read with \<open>map_of\<close>; \<open>assign m k v\<close> is the statement \<open>m[k] = v\<close>: it replaces the
  entry of a key that is present and adds one for a key that is not. A Go map that is
  only read and written by key is a partial function.

  A record field keeps the name of the Go field. Where two Go structs have a field of
  the same name, all but one carry a prefix that names their struct.
\<close>

fun assign :: "('k \<times> 'v) list \<Rightarrow> 'k \<Rightarrow> 'v \<Rightarrow> ('k \<times> 'v) list" where
  "assign [] k v = [(k, v)]"
| "assign ((k', v') # m) k v = (if k' = k then (k, v) # m else (k', v') # assign m k v)"

text \<open>
  A Go \<open>error\<close>: an error of the standard library or of a plugin, known by its message,
  or the wrapping \<open>fmt.Errorf("plugin %s failed: %w", name, err)\<close> of the plugin registry.
\<close>

datatype error =
    ErrorString string
  | PluginFailed string error

section \<open>Web UI: masked credentials and statistics (package webui)\<close>

text \<open>\<open>fmt.Sprintf("%d", n)\<close> for a length: the decimal digits of a natural number.\<close>

fun decimal :: "nat \<Rightarrow> string" where
  "decimal n =
     (if n < 10 then [''0123456789'' ! n]
      else decimal (n div 10) @ [''0123456789'' ! (n mod 10)])"

text \<open>
  \<open>maskString\<close>: the empty string stays empty, a string of at most 8 bytes becomes four
  stars, a longer one keeps its first four and last four bytes around four stars.
\<close>

definition maskString :: "string \<Rightarrow> string" where
  "maskString s =
     (if s = [] then []
      else if length s \<le> 8 then ''****''
      else take 4 s @ ''****'' @ drop (length s - 4) s)"

text \<open>
  \<open>maskAPIKey\<close>: a type switch on the configured key, after the \<open>nil\<close> test.
\<close>

fun maskAPIKey :: "any \<Rightarrow> string" where
  "maskAPIKey Nil = []"
| "maskAPIKey (String v) = maskString v"
| "maskAPIKey (Slice v) = ''['' @ decimal (length v) @ '' keys configured]''"
| "maskAPIKey _ = ''[configured]''"

text \<open>
  The statistics store. \<open>int\<close> and \<open>int64\<close> are 64-bit two's-complement integers (the
  build targets are amd64 and arm64), so counters are 64-bit words whose \<open>+\<close> wraps as
  Go's does; \<open>sint\<close> reads the signed value. A \<open>time.Time\<close> is an instant, kept as an
  integer. The two per-model tables are Go maps: reading a missing key gives 0
  (\<open>counter\<close>).
\<close>

record RequestLog =
  Timestamp :: int
  log_Provider :: string
  log_Model :: string
  InputTokens :: "64 word"
  OutputTokens :: "64 word"
  DurationMs :: "64 word"
  Status :: "64 word"

record Stats =
  TotalRequests :: "64 word"
  TotalTokens :: "64 word"
  RequestsByModel :: "string \<rightharpoonup> 64 word"
  TokensByModel :: "string \<rightharpoonup> 64 word"
  RecentRequests :: "RequestLog list"
  StartTime :: int

definition counter :: "(string \<rightharpoonup> 64 word) \<Rightarrow> string \<Rightarrow> 64 word" where
  "counter m k = (case m k of None \<Rightarrow> 0 | Some v \<Rightarrow> v)"

text \<open>The statistics of a server just made by \<open>NewServer\<close> at instant \<open>now\<close>.\<close>

definition NewStats :: "int \<Rightarrow> Stats" where
  "NewStats now =
     \<lparr>TotalRequests = 0, TotalTokens = 0, RequestsByModel = Map.empty,
      TokensByModel = Map.empty, RecentRequests = [], StartTime = now\<rparr>"

text \<open>
  \<open>Server.LogRequest\<close>, on the statistics the server holds; \<open>now\<close> is what
  \<open>time.Now()\<close> returns during the call. The method runs under the store's mutex, so
  each call is one step. \<open>recent[1:]\<close> drops the first, oldest entry.
\<close>

definition LogRequest ::
  "Stats \<Rightarrow> int \<Rightarrow> string \<Rightarrow> string \<Rightarrow> 64 word \<Rightarrow> 64 word \<Rightarrow> 64 word \<Rightarrow> 64 word \<Rightarrow> Stats" where
  "LogRequest stats now provider model inputTokens outputTokens durationMs status =
     (let modelKey = provider @ ''/'' @ model;
          log = \<lparr>Timestamp = now, log_Provider = provider, log_Model = model,
                 InputTokens = inputTokens, OutputTokens = outputTokens,
                 DurationMs = durationMs, Status = status\<rparr>;
          recent = RecentRequests stats @ [log]
      in stats
           \<lparr>TotalRequests := TotalRequests stats + 1,
            TotalTokens := TotalTokens stats + (inputTokens + outputTokens),
            RequestsByModel :=
              (RequestsByModel stats)(modelKey \<mapsto> counter (RequestsByModel stats) modelKey + 1),
            TokensByModel :=
              (TokensByModel stats)
                (modelKey \<mapsto>
                   counter (TokensByModel stats) modelKey + (inputTokens + outputTokens)),
            RecentRequests := (if length recent > 100 then drop 1 recent else recent)\<rparr>)"

section \<open>Provider adapters (package providers)\<close>

text \<open>
  \<open>ContentBlockState\<close> and \<open>StreamState\<close>, the state a stream translation threads from
  chunk to chunk. \<open>ContentBlocks\<close> is a Go map from block index to block state, kept
  as an association list (read with \<open>map_of\<close>).
\<close>

record ContentBlockState =
  Type :: string
  StartSent :: bool
  StopSent :: bool
  ToolCallID :: string
  ToolCallIndex :: int
  ToolName :: string
  Arguments :: string

record StreamState =
  MessageStartSent :: bool
  MessageID :: string
  Model :: string
  InitialUsage :: "(string \<times> any) list"
  ContentBlocks :: "(int \<times> ContentBlockState) list"
  CurrentIndex :: int

text \<open>
  \<open>config.Provider\<close>, by the fields the sources read: the provider's name, its endpoint,
  its key material (one string or a list) and its default models.
\<close>

record config_Provider =
  Provider_Name :: string
  Provider_APIBase :: string
  Provider_APIKey :: any
  Provider_DefaultModels :: "string list"

text \<open>
  The Anthropic-native adapter holds its configuration entry. Its three translation
  hooks return two values, the bytes and the error (\<open>None\<close> for Go's \<open>nil\<close>);
  \<open>TransformStream\<close> receives the stream state by pointer, so the model returns the
  state it leaves behind as well.
\<close>

record AnthropicProvider =
  Provider :: config_Provider

definition Anthropic_TransformRequest ::
  "AnthropicProvider \<Rightarrow> bytes \<Rightarrow> bytes \<times> error option" where
  "Anthropic_TransformRequest p request = (request, None)"

definition Anthropic_TransformResponse ::
  "AnthropicProvider \<Rightarrow> bytes \<Rightarrow> bytes \<times> error option" where
  "Anthropic_TransformResponse p response = (response, None)"

definition Anthropic_TransformStream ::
  "AnthropicProvider \<Rightarrow> bytes \<Rightarrow> StreamState \<Rightarrow> (bytes \<times> error option) \<times> StreamState" where
  "Anthropic_TransformStream p chunk state = ((chunk, None), state)"

text \<open>
  The provider registry. A registered adapter is one of the six adapter types that
  \<open>Registry.Initialize\<close> constructs, each made from its configuration entry. Only the
  Anthropic adapter's type is among the sources; there \<open>Name()\<close> returns the entry's
  name. What \<open>Name()\<close> returns for the other five is not in the sources, so it is the
  parameter \<open>nm\<close> of \<open>Provider_Name_of\<close>.
\<close>

datatype family = OpenRouter | OpenAI | Nvidia | Gemini | Ollama

datatype Provider_adapter =
    AnthropicAdapter AnthropicProvider
  | OtherAdapter family config_Provider

definition NewAnthropicProvider :: "config_Provider \<Rightarrow> AnthropicProvider" where
  "NewAnthropicProvider provider = \<lparr>Provider = provider\<rparr>"

definition Anthropic_Name :: "AnthropicProvider \<Rightarrow> string" where
  "Anthropic_Name p = Provider_Name (Provider p)"

fun Provider_Name_of ::
  "(family \<Rightarrow> config_Provider \<Rightarrow> string) \<Rightarrow> Provider_adapter \<Rightarrow> string" where
  "Provider_Name_of nm (AnthropicAdapter p) = Anthropic_Name p"
| "Provider_Name_of nm (OtherAdapter f c) = nm f c"

record providers_Registry =
  providers :: "string \<rightharpoonup> Provider_adapter"

definition providers_NewRegistry :: providers_Registry where
  "providers_NewRegistry = \<lparr>providers = Map.empty\<rparr>"

definition Register ::
  "(family \<Rightarrow> config_Provider \<Rightarrow> string) \<Rightarrow> providers_Registry \<Rightarrow> Provider_adapter
     \<Rightarrow> providers_Registry" where
  "Register nm r provider = r\<lparr>providers := (providers r)(Provider_Name_of nm provider \<mapsto> provider)\<rparr>"

text \<open>\<open>Get\<close> returns the adapter and whether it exists: \<open>None\<close> is \<open>(nil, false)\<close>.\<close>

definition Get :: "providers_Registry \<Rightarrow> string \<Rightarrow> Provider_adapter option" where
  "Get r name = providers r name"

text \<open>
  \<open>Registry.Initialize\<close>: one pass over the configured providers, with a switch on the
  entry's name that has six cases and no default.
\<close>

definition Initialize_case ::
  "(family \<Rightarrow> config_Provider \<Rightarrow> string) \<Rightarrow> providers_Registry \<Rightarrow> config_Provider
     \<Rightarrow> providers_Registry" where
  "Initialize_case nm r cfgProvider =
     (if Provider_Name cfgProvider = ''openrouter'' then Register nm r (OtherAdapter OpenRouter cfgProvider)
      else if Provider_Name cfgProvider = ''openai'' then Register nm r (OtherAdapter OpenAI cfgProvider)
      else if Provider_Name cfgProvider = ''anthropic''
        then Register nm r (AnthropicAdapter (NewAnthropicProvider cfgProvider))
      else if Provider_Name cfgProvider = ''nvidia'' then Register nm r (OtherAdapter Nvidia cfgProvider)
      else if Provider_Name cfgProvider = ''gemini'' then Register nm r (OtherAdapter Gemini cfgProvider)
      else if Provider_Name cfgProvider = ''ollama'' then Register nm r (OtherAdapter Ollama cfgProvider)
      else r)"

fun Initialize ::
  "(family \<Rightarrow> config_Provider \<Rightarrow> string) \<Rightarrow> providers_Registry \<Rightarrow> config_Provider list
     \<Rightarrow> providers_Registry" where
  "Initialize nm r [] = r"
| "Initialize nm r (cfgProvider # rest) = Initialize nm (Initialize_case nm r cfgProvider) rest"

section \<open>The plugin registry (package plugins)\<close>

text \<open>
  The plugin interfaces. \<open>Plugin\<close> is the embedded interface; each of the four plugin
  interfaces extends it with its hooks, as the record extensions do. \<open>'c\<close> is the
  \<open>context.Context\<close> of a request. A transformer hook returns Go's two values, the bytes
  and the error. A metadata observer returns nothing and acts by its effects alone:
  its hooks are transformers of the part of the world (\<open>'w\<close>) they can change.
\<close>

record 'c Plugin =
  Name :: string
  Description :: string
  Priority :: int
  Enabled :: "'c \<Rightarrow> bool"

record 'c RequestTransformer = "'c Plugin" +
  TransformRequest :: "'c \<Rightarrow> bytes \<Rightarrow> bytes \<times> error option"

record 'c ResponseTransformer = "'c Plugin" +
  TransformResponse :: "'c \<Rightarrow> bytes \<Rightarrow> bytes \<times> error option"

record 'c StreamTransformer = "'c Plugin" +
  TransformChunk :: "'c \<Rightarrow> bytes \<Rightarrow> bytes \<times> error option"

record RequestMetadata =
  req_Provider :: string
  req_Model :: string
  req_InputTokens :: "64 word"
  req_HasStreaming :: bool
  req_Raw :: bytes

record ResponseMetadata =
  resp_Provider :: string
  resp_Model :: string
  resp_OutputTokens :: "64 word"
  resp_Status :: "64 word"
  resp_DurationMs :: "64 word"
  resp_CachedTokens :: "64 word"
  resp_Raw :: bytes

record ('c, 'w) MetadataPlugin = "'c Plugin" +
  OnRequest :: "'c \<Rightarrow> RequestMetadata \<Rightarrow> 'w \<Rightarrow> 'w"
  OnResponse :: "'c \<Rightarrow> ResponseMetadata \<Rightarrow> 'w \<Rightarrow> 'w"

record ('c, 'w) Registry =
  requestTransformers :: "'c RequestTransformer list"
  responseTransformers :: "'c ResponseTransformer list"
  streamTransformers :: "'c StreamTransformer list"
  metadataPlugins :: "('c, 'w) MetadataPlugin list"

definition NewRegistry :: "('c, 'w) Registry" where
  "NewRegistry =
     \<lparr>requestTransformers = [], responseTransformers = [], streamTransformers = [],
      metadataPlugins = []\<rparr>"

text \<open>
  \<open>sort.Slice\<close> is the standard library's and is not stable. It is the parameter
  \<open>srt\<close> of the three registering functions, called with the slice and the
  \<open>less\<close> function the source passes. \<open>sort_Slice_contract\<close> is what its documentation
  promises for that \<open>less\<close>: the result is a rearrangement of the slice in which no
  element is less than an element before it.
\<close>

type_synonym 'a sort_Slice = "'a list \<Rightarrow> ('a \<Rightarrow> 'a \<Rightarrow> bool) \<Rightarrow> 'a list"

definition sort_Slice_contract :: "'a sort_Slice \<Rightarrow> ('a \<Rightarrow> 'a \<Rightarrow> bool) \<Rightarrow> bool" where
  "sort_Slice_contract srt lt =
     (\<forall>xs. mset (srt xs lt) = mset xs \<and> sorted_wrt (\<lambda>a b. \<not> lt b a) (srt xs lt))"

definition by_Priority :: "('c, 'z) Plugin_scheme \<Rightarrow> ('c, 'z) Plugin_scheme \<Rightarrow> bool" where
  "by_Priority a b = (Priority a < Priority b)"

definition RegisterRequestTransformer ::
  "'c RequestTransformer sort_Slice \<Rightarrow> ('c, 'w) Registry \<Rightarrow> 'c RequestTransformer
     \<Rightarrow> ('c, 'w) Registry" where
  "RegisterRequestTransformer srt r plugin =
     r\<lparr>requestTransformers := srt (requestTransformers r @ [plugin]) by_Priority\<rparr>"

definition RegisterResponseTransformer ::
  "'c ResponseTransformer sort_Slice \<Rightarrow> ('c, 'w) Registry \<Rightarrow> 'c ResponseTransformer
     \<Rightarrow> ('c, 'w) Registry" where
  "RegisterResponseTransformer srt r plugin =
     r\<lparr>responseTransformers := srt (responseTransformers r @ [plugin]) by_Priority\<rparr>"

definition RegisterStreamTransformer ::
  "'c StreamTransformer sort_Slice \<Rightarrow> ('c, 'w) Registry \<Rightarrow> 'c StreamTransformer
     \<Rightarrow> ('c, 'w) Registry" where
  "RegisterStreamTransformer srt r plugin =
     r\<lparr>streamTransformers := srt (streamTransformers r @ [plugin]) by_Priority\<rparr>"

definition RegisterMetadataPlugin ::
  "('c, 'w) Registry \<Rightarrow> ('c, 'w) MetadataPlugin \<Rightarrow> ('c, 'w) Registry" where
  "RegisterMetadataPlugin r plugin = r\<lparr>metadataPlugins := metadataPlugins r @ [plugin]\<rparr>"

text \<open>
  The loop of \<open>ApplyRequestTransformers\<close>, \<open>ApplyResponseTransformers\<close> and
  \<open>ApplyStreamTransformers\<close>: the source writes it three times, the same but for the
  hook it calls, which is the parameter \<open>hook\<close> here. \<open>result\<close> is the loop's variable.
  Calling a hook is an effect, so the loop also keeps the list \<open>calls\<close> of the plugins
  whose hook it has called, in call order, and returns it beside Go's two results. On a
  hook's error the loop returns at once with \<open>nil\<close> bytes and the wrapped error.
\<close>

fun applyLoop ::
  "(('c, 'z) Plugin_scheme \<Rightarrow> 'c \<Rightarrow> bytes \<Rightarrow> bytes \<times> error option) \<Rightarrow> 'c
     \<Rightarrow> ('c, 'z) Plugin_scheme list \<Rightarrow> bytes \<Rightarrow> ('c, 'z) Plugin_scheme list
     \<Rightarrow> ('c, 'z) Plugin_scheme list \<times> bytes \<times> error option" where
  "applyLoop hook ctx [] result calls = (calls, result, None)"
| "applyLoop hook ctx (plugin # rest) result calls =
     (if \<not> Enabled plugin ctx then applyLoop hook ctx rest result calls
      else (case hook plugin ctx result of
              (transformed, Some err) \<Rightarrow>
                (calls @ [plugin], [], Some (PluginFailed (Name plugin) err))
            | (transformed, None) \<Rightarrow>
                applyLoop hook ctx rest transformed (calls @ [plugin])))"

definition ApplyRequestTransformers ::
  "'c \<Rightarrow> ('c, 'w) Registry \<Rightarrow> bytes \<Rightarrow> 'c RequestTransformer list \<times> bytes \<times> error option" where
  "ApplyRequestTransformers ctx r request =
     applyLoop TransformRequest ctx (requestTransformers r) request []"

definition ApplyResponseTransformers ::
  "'c \<Rightarrow> ('c, 'w) Registry \<Rightarrow> bytes \<Rightarrow> 'c ResponseTransformer list \<times> bytes \<times> error option" where
  "ApplyResponseTransformers ctx r response =
     applyLoop TransformResponse ctx (responseTransformers r) response []"

definition ApplyStreamTransformers ::
  "'c \<Rightarrow> ('c, 'w) Registry \<Rightarrow> bytes \<Rightarrow> 'c StreamTransformer list \<times> bytes \<times> error option" where
  "ApplyStreamTransformers ctx r chunk =
     applyLoop TransformChunk ctx (streamTransformers r) chunk []"

text \<open>
  The loop of \<open>NotifyRequest\<close> and \<open>NotifyResponse\<close>: every enabled observer's hook is
  called with the metadata; the hooks return nothing, and the loop has no exit but its
  end. \<open>w\<close> is the world the observers act on, \<open>calls\<close> the observers called so far.
\<close>

fun notifyLoop ::
  "(('c, 'w) MetadataPlugin \<Rightarrow> 'c \<Rightarrow> 'm \<Rightarrow> 'w \<Rightarrow> 'w) \<Rightarrow> 'c \<Rightarrow> ('c, 'w) MetadataPlugin list
     \<Rightarrow> 'm \<Rightarrow> 'w \<Rightarrow> ('c, 'w) MetadataPlugin list \<Rightarrow> ('c, 'w) MetadataPlugin list \<times> 'w" where
  "notifyLoop hook ctx [] metadata w calls = (calls, w)"
| "notifyLoop hook ctx (plugin # rest) metadata w calls =
     (if Enabled plugin ctx
      then notifyLoop hook ctx rest metadata (hook plugin ctx metadata w) (calls @ [plugin])
      else notifyLoop hook ctx rest metadata w calls)"

definition NotifyRequest ::
  "'c \<Rightarrow> ('c, 'w) Registry \<Rightarrow> RequestMetadata \<Rightarrow> 'w \<Rightarrow> ('c, 'w) MetadataPlugin list \<times> 'w" where
  "NotifyRequest ctx r metadata w = notifyLoop OnRequest ctx (metadataPlugins r) metadata w []"

definition NotifyResponse ::
  "'c \<Rightarrow> ('c, 'w) Registry \<Rightarrow> ResponseMetadata \<Rightarrow> 'w \<Rightarrow> ('c, 'w) MetadataPlugin list \<times> 'w" where
  "NotifyResponse ctx r metadata w = notifyLoop OnResponse ctx (metadataPlugins r) metadata w []"

text \<open>
  Insertion sort with the caller's \<open>less\<close>: one function that keeps the contract of
  \<open>sort.Slice\<close>, with which the registry can be run on concrete plugins.
\<close>

fun insert_sorted :: "('a \<Rightarrow> 'a \<Rightarrow> bool) \<Rightarrow> 'a \<Rightarrow> 'a list \<Rightarrow> 'a list" where
  "insert_sorted lt x [] = [x]"
| "insert_sorted lt x (y # ys) = (if lt x y then x # y # ys else y # insert_sorted lt x ys)"

definition insertion_sort :: "'a sort_Slice" where
  "insertion_sort xs lt = foldl (\<lambda>sorted_part x. insert_sorted lt x sorted_part) [] xs"

section \<open>The proxy handler's use of the chains\<close>

text \<open>
  The proxy handler's code is not among the sources. What it does with the result of a
  plugin chain is taken from the specification: steps 6, 7, 9 and 10 of its proxy handler
  and the PluginError kind of its error taxonomy.
\<close>






section \<open>Built-in plugins (package builtin)\<close>

text \<open>
  A decoded JSON object is a \<open>map[string]interface{}\<close>.
  \<open>json.Unmarshal\<close> into a \<open>map[string]interface{}\<close> variable and \<open>json.Marshal\<close> are
  the standard library's: they are the parameters \<open>unmarshal\<close> and \<open>marshal\<close>.
  \<open>unmarshal\<close> gives an error, or the map, which is \<open>nil\<close> (\<open>None\<close>) for the JSON text
  \<open>null\<close>. Writing to a \<open>nil\<close> map panics.
\<close>

type_synonym object = "(string \<times> any) list"

datatype 'a outcome = Returns 'a | Panics string

record SystemPromptInjectorPlugin =
  systemPrompt :: string
  injector_enabled :: bool

definition SystemPromptInjector_Enabled :: "SystemPromptInjectorPlugin \<Rightarrow> 'c \<Rightarrow> bool" where
  "SystemPromptInjector_Enabled p ctx = (injector_enabled p \<and> systemPrompt p \<noteq> [])"

text \<open>
  The \<open>if\<close> of \<open>TransformRequest\<close> on the decoded request: the type assertion
  \<open>req["system"].(string)\<close> succeeds only on a string.
\<close>

definition SystemPromptInjector_inject :: "SystemPromptInjectorPlugin \<Rightarrow> object \<Rightarrow> object" where
  "SystemPromptInjector_inject p req =
     (case map_of req ''system'' of
        Some (String existingSystem) \<Rightarrow>
          (if existingSystem \<noteq> []
           then assign req ''system''
                  (String (systemPrompt p @ [CHR 0x0A, CHR 0x0A] @ existingSystem))
           else assign req ''system'' (String (systemPrompt p)))
      | _ \<Rightarrow> assign req ''system'' (String (systemPrompt p)))"

definition SystemPromptInjector_TransformRequest ::
  "(bytes \<Rightarrow> error + object option) \<Rightarrow> (object option \<Rightarrow> bytes \<times> error option)
     \<Rightarrow> SystemPromptInjectorPlugin \<Rightarrow> 'c \<Rightarrow> bytes \<Rightarrow> (bytes \<times> error option) outcome" where
  "SystemPromptInjector_TransformRequest unmarshal marshal p ctx request =
     (case unmarshal request of
        Inl err \<Rightarrow> Returns (request, Some err)
      | Inr None \<Rightarrow> Panics ''assignment to entry in nil map''
      | Inr (Some req) \<Rightarrow> Returns (marshal (Some (SystemPromptInjector_inject p req))))"

record ResponseFilterPlugin =
  filterWords :: "string list"
  replacement :: string
  filter_enabled :: bool

definition ResponseFilter_Enabled :: "ResponseFilterPlugin \<Rightarrow> 'c \<Rightarrow> bool" where
  "ResponseFilter_Enabled p ctx = (filter_enabled p \<and> length (filterWords p) > 0)"

text \<open>\<open>replaceAll\<close> copies \<open>s\<close> into \<open>result\<close> and returns \<open>result\<close>.\<close>

definition replaceAll :: "string \<Rightarrow> string \<Rightarrow> string \<Rightarrow> string" where
  "replaceAll s old new = (let result = s in result)"

text \<open>
  The body of \<open>TransformResponse\<close> on the decoded response, inside out: the loop over
  the words on one text, the two type assertions on one element of \<open>content\<close>, and the
  loop over \<open>content\<close>.
\<close>

definition ResponseFilter_filtered :: "ResponseFilterPlugin \<Rightarrow> string \<Rightarrow> string" where
  "ResponseFilter_filtered p text =
     foldl (\<lambda>filtered word. replaceAll filtered word (replacement p)) text (filterWords p)"

definition ResponseFilter_item :: "ResponseFilterPlugin \<Rightarrow> any \<Rightarrow> any" where
  "ResponseFilter_item p item =
     (case item of
        Map block \<Rightarrow>
          (case map_of block ''text'' of
             Some (String text) \<Rightarrow> Map (assign block ''text'' (String (ResponseFilter_filtered p text)))
           | _ \<Rightarrow> item)
      | _ \<Rightarrow> item)"

definition ResponseFilter_filter :: "ResponseFilterPlugin \<Rightarrow> object \<Rightarrow> object" where
  "ResponseFilter_filter p resp =
     (case map_of resp ''content'' of
        Some (Slice content) \<Rightarrow> assign resp ''content'' (Slice (map (ResponseFilter_item p) content))
      | _ \<Rightarrow> resp)"

definition ResponseFilter_TransformResponse ::
  "(bytes \<Rightarrow> error + object option) \<Rightarrow> (object option \<Rightarrow> bytes \<times> error option)
     \<Rightarrow> ResponseFilterPlugin \<Rightarrow> 'c \<Rightarrow> bytes \<Rightarrow> bytes \<times> error option" where
  "ResponseFilter_TransformResponse unmarshal marshal p ctx response =
     (case unmarshal response of
        Inl err \<Rightarrow> (response, Some err)
      | Inr None \<Rightarrow> marshal None
      | Inr (Some resp) \<Rightarrow> marshal (Some (ResponseFilter_filter p resp)))"

section \<open>The stream translator\<close>

text \<open>
  The code that translates an upstream stream (the \<open>TransformStream\<close> of the
  OpenAI-shaped adapters) is not among the sources; only the state it threads,
  \<open>StreamState\<close> and \<open>ContentBlockState\<close> above, is. The translator of this section
  follows the specification's section on the stream translator: its upstream parse, its
  emission rules 1 to 4 and its robustness paragraph, on the state the sources declare.
\<close>































section \<open>Concrete plugins and streams\<close>

text \<open>
  Plugins, a registry and metadata on which the properties below are run: transformers
  that append a suffix or always fail, switched on or off, and an observer that counts
  its calls in a world that is one counter. The upstream stream is the specification's
  scenario S5: two text deltas, a tool call, the finish reason \<open>tool_calls\<close>.
\<close>

definition appends :: "string \<Rightarrow> bytes \<Rightarrow> bytes \<times> error option" where
  "appends suffix body = (body @ suffix, None)"

definition fails :: "bytes \<Rightarrow> bytes \<times> error option" where
  "fails body = (body, Some (ErrorString ''boom''))"

definition request_plugin ::
  "string \<Rightarrow> int \<Rightarrow> bool \<Rightarrow> (bytes \<Rightarrow> bytes \<times> error option) \<Rightarrow> unit RequestTransformer" where
  "request_plugin name priority on f =
     \<lparr>Name = name, Description = [], Priority = priority, Enabled = (\<lambda>ctx. on),
      TransformRequest = (\<lambda>ctx. f)\<rparr>"

definition response_plugin ::
  "string \<Rightarrow> int \<Rightarrow> bool \<Rightarrow> (bytes \<Rightarrow> bytes \<times> error option) \<Rightarrow> unit ResponseTransformer" where
  "response_plugin name priority on f =
     \<lparr>Name = name, Description = [], Priority = priority, Enabled = (\<lambda>ctx. on),
      TransformResponse = (\<lambda>ctx. f)\<rparr>"

definition stream_plugin ::
  "string \<Rightarrow> int \<Rightarrow> bool \<Rightarrow> (bytes \<Rightarrow> bytes \<times> error option) \<Rightarrow> unit StreamTransformer" where
  "stream_plugin name priority on f =
     \<lparr>Name = name, Description = [], Priority = priority, Enabled = (\<lambda>ctx. on),
      TransformChunk = (\<lambda>ctx. f)\<rparr>"

definition counting_observer :: "string \<Rightarrow> bool \<Rightarrow> (unit, nat) MetadataPlugin" where
  "counting_observer name on =
     \<lparr>Name = name, Description = [], Priority = 1000, Enabled = (\<lambda>ctx. on),
      OnRequest = (\<lambda>ctx metadata w. w + 1), OnResponse = (\<lambda>ctx metadata w. w + 1)\<rparr>"

definition example_registry :: "(unit, nat) Registry" where
  "example_registry =
     \<lparr>requestTransformers =
        [request_plugin ''off'' 5 False (appends ''-off''),
         request_plugin ''ok'' 10 True (appends ''-ok''),
         request_plugin ''bad'' 50 True fails,
         request_plugin ''later'' 1000 True (appends ''-later'')],
      responseTransformers =
        [response_plugin ''ok'' 10 True (appends ''-ok''),
         response_plugin ''bad'' 50 True fails],
      streamTransformers = [stream_plugin ''off'' 10 False fails],
      metadataPlugins = [counting_observer ''off'' False, counting_observer ''on'' True]\<rparr>"

definition example_request_metadata :: RequestMetadata where
  "example_request_metadata =
     \<lparr>req_Provider = ''openrouter'', req_Model = ''gpt-4o'', req_InputTokens = 7,
      req_HasStreaming = False, req_Raw = []\<rparr>"

definition example_response_metadata :: ResponseMetadata where
  "example_response_metadata =
     \<lparr>resp_Provider = ''openrouter'', resp_Model = ''gpt-4o'', resp_OutputTokens = 11,
      resp_Status = 200, resp_DurationMs = 42, resp_CachedTokens = 0, resp_Raw = []\<rparr>"


section \<open>Properties\<close>

subsection \<open>The Anthropic-native adapter\<close>

text \<open>
  Claim C8. For every byte slice and every stream state, the three translation hooks of
  the Anthropic-native adapter return their input bytes with a nil error, and the stream
  hook leaves the stream state as it found it.
\<close>

theorem anthropic_adapter_identity:
  "Anthropic_TransformRequest p b = (b, None) \<and>
   Anthropic_TransformResponse p b = (b, None) \<and>
   Anthropic_TransformStream p b s = ((b, None), s)"
  by (simp add: Anthropic_TransformRequest_def Anthropic_TransformResponse_def
      Anthropic_TransformStream_def)

subsection \<open>The plugin registry: sorting and the loops\<close>

text \<open>
  What the contract of \<open>sort.Slice\<close> gives the registering functions: after any
  registrations the chain holds the registered plugins, in ascending order of priority.
  Insertion sort keeps the contract.
\<close>

lemma by_Priority_sorted:
  "sorted_wrt (\<lambda>a b. \<not> by_Priority b a) xs = sorted (map Priority xs)"
  by (simp add: sorted_map by_Priority_def not_less)

lemma contract_mset:
  "sort_Slice_contract srt lt \<Longrightarrow> mset (srt xs lt) = mset xs"
  by (simp add: sort_Slice_contract_def)

lemma contract_sorted:
  "sort_Slice_contract srt by_Priority \<Longrightarrow> sorted (map Priority (srt xs by_Priority))"
  by (simp add: sort_Slice_contract_def by_Priority_sorted [symmetric])

lemma registered_request_mset:
  "sort_Slice_contract srt by_Priority \<Longrightarrow>
   mset (requestTransformers (foldl (RegisterRequestTransformer srt) r ps)) =
     mset (requestTransformers r) + mset ps"
  by (induction ps arbitrary: r)
     (simp_all add: RegisterRequestTransformer_def contract_mset)

lemma registered_request_sorted:
  "sort_Slice_contract srt by_Priority \<Longrightarrow>
   sorted (map Priority (requestTransformers (foldl (RegisterRequestTransformer srt) NewRegistry ps)))"
  by (cases ps rule: rev_cases)
     (simp_all add: RegisterRequestTransformer_def contract_sorted NewRegistry_def)

lemma three_sorted_unique:
  assumes m: "mset xs = {#a, b, c#}"
    and s: "sorted (map Priority xs)"
    and p: "Priority a < Priority b" "Priority b < Priority c"
  shows "xs = [a, b, c]"
proof -
  have m': "mset xs = mset [a, b, c]" using m by simp
  have len: "length xs = 3" using mset_eq_length [OF m'] by simp
  then obtain x y z where xs: "xs = [x, y, z]"
    by (auto simp: length_Suc_conv numeral_3_eq_3)
  have st: "{x, y, z} = {a, b, c}" using mset_eq_setD [OF m'] xs by simp
  have "distinct xs" using mset_eq_imp_distinct_iff [OF m'] p by auto
  then have d: "x \<noteq> y" "y \<noteq> z" "x \<noteq> z" using xs by auto
  have o: "Priority x \<le> Priority y" "Priority y \<le> Priority z" using s xs by auto
  have "x \<in> {a, b, c}" "y \<in> {a, b, c}" "z \<in> {a, b, c}" using st by auto
  then show ?thesis using xs d o p by auto
qed

lemma insert_sorted_mset: "mset (insert_sorted lt x ys) = add_mset x (mset ys)"
  by (induction ys) simp_all

lemma insert_sorted_set: "set (insert_sorted lt x ys) = insert x (set ys)"
  by (induction ys) auto

lemma insert_sorted_by_Priority:
  "sorted (map Priority ys) \<Longrightarrow> sorted (map Priority (insert_sorted by_Priority x ys))"
  by (induction ys) (auto simp: insert_sorted_set by_Priority_def)

lemma insertion_fold_mset:
  "mset (foldl (\<lambda>sorted_part x. insert_sorted lt x sorted_part) acc xs) = mset acc + mset xs"
  by (induction xs arbitrary: acc) (simp_all add: insert_sorted_mset)

lemma insertion_fold_sorted:
  "sorted (map Priority acc) \<Longrightarrow>
   sorted (map Priority (foldl (\<lambda>sorted_part x. insert_sorted by_Priority x sorted_part) acc xs))"
  by (induction xs arbitrary: acc) (simp_all add: insert_sorted_by_Priority)

lemma insertion_sort_contract: "sort_Slice_contract insertion_sort by_Priority"
  by (simp add: sort_Slice_contract_def insertion_sort_def insertion_fold_mset
      insertion_fold_sorted by_Priority_sorted)

text \<open>
  The loops. The plugins called are always an initial part of the enabled plugins of the
  chain, in chain order; a run without error has called them all and has fed each one's
  output to the next; a hook's error ends the run at that plugin.
\<close>

lemma applyLoop_calls_append:
  "fst (applyLoop hook ctx ps b calls) = calls @ fst (applyLoop hook ctx ps b [])"
proof (induction ps arbitrary: b calls)
  case Nil
  then show ?case by simp
next
  case (Cons p ps)
  show ?case
  proof (cases "Enabled p ctx")
    case False
    then show ?thesis using Cons.IH [of b calls] by simp
  next
    case True
    obtain t e where h: "hook p ctx b = (t, e)" by (cases "hook p ctx b")
    show ?thesis
    proof (cases e)
      case None
      then show ?thesis
        using True h Cons.IH [of t "calls @ [p]"] Cons.IH [of t "[p]"] by simp
    next
      case (Some err)
      then show ?thesis using True h by simp
    qed
  qed
qed

lemma applyLoop_calls_prefix:
  "\<exists>rest. filter (\<lambda>p. Enabled p ctx) ps = fst (applyLoop hook ctx ps b []) @ rest"
proof (induction ps arbitrary: b)
  case Nil
  then show ?case by simp
next
  case (Cons p ps)
  show ?case
  proof (cases "Enabled p ctx")
    case False
    then show ?thesis using Cons.IH [of b] by simp
  next
    case True
    obtain t e where h: "hook p ctx b = (t, e)" by (cases "hook p ctx b")
    show ?thesis
    proof (cases e)
      case None
      obtain rest where "filter (\<lambda>p. Enabled p ctx) ps = fst (applyLoop hook ctx ps t []) @ rest"
        using Cons.IH [of t] by blast
      then show ?thesis
        using True h None applyLoop_calls_append [of hook ctx ps t "[p]"] by simp
    next
      case (Some err)
      then show ?thesis using True h by simp
    qed
  qed
qed

lemma applyLoop_success:
  "applyLoop hook ctx ps b calls = (cs, out, None) \<Longrightarrow>
   cs = calls @ filter (\<lambda>p. Enabled p ctx) ps \<and>
   out = foldl (\<lambda>b p. fst (hook p ctx b)) b (filter (\<lambda>p. Enabled p ctx) ps)"
proof (induction ps arbitrary: b calls)
  case Nil
  then show ?case by simp
next
  case (Cons p ps)
  show ?case
  proof (cases "Enabled p ctx")
    case False
    then show ?thesis using Cons.IH [of b calls] Cons.prems by simp
  next
    case True
    obtain t e where h: "hook p ctx b = (t, e)" by (cases "hook p ctx b")
    show ?thesis
    proof (cases e)
      case None
      then show ?thesis
        using True h Cons.IH [of t "calls @ [p]"] Cons.prems by simp
    next
      case (Some err)
      then show ?thesis using True h Cons.prems by simp
    qed
  qed
qed

lemma applyLoop_all_disabled:
  "\<forall>p\<in>set ps. \<not> Enabled p ctx \<Longrightarrow> applyLoop hook ctx ps b calls = (calls, b, None)"
  by (induction ps) simp_all


lemma applyLoop_calls_enabled:
  "p \<in> set (fst (applyLoop hook ctx ps b [])) \<Longrightarrow> p \<in> set ps \<and> Enabled p ctx"
proof -
  assume a: "p \<in> set (fst (applyLoop hook ctx ps b []))"
  obtain rest where "filter (\<lambda>p. Enabled p ctx) ps = fst (applyLoop hook ctx ps b []) @ rest"
    using applyLoop_calls_prefix [where ctx = ctx and ps = ps and hook = hook and b = b] by blast
  then have "p \<in> set (filter (\<lambda>p. Enabled p ctx) ps)" using a by simp
  then show ?thesis by simp
qed

lemma applyLoop_calls_sorted:
  assumes "sorted (map Priority ps)"
  shows "sorted (map Priority (fst (applyLoop hook ctx ps b [])))"
proof -
  obtain rest where r: "filter (\<lambda>p. Enabled p ctx) ps = fst (applyLoop hook ctx ps b []) @ rest"
    using applyLoop_calls_prefix [where ctx = ctx and ps = ps and hook = hook and b = b] by blast
  have "sorted (map Priority (filter (\<lambda>p. Enabled p ctx) ps))"
    using assms by (simp add: sorted_map sorted_wrt_filter)
  then show ?thesis unfolding r by (simp add: sorted_append)
qed


lemma notifyLoop_calls:
  "fst (notifyLoop hook ctx ps md w calls) = calls @ filter (\<lambda>p. Enabled p ctx) ps"
  by (induction ps arbitrary: w calls) simp_all

lemma notifyLoop_all_disabled:
  "\<forall>p\<in>set ps. \<not> Enabled p ctx \<Longrightarrow> notifyLoop hook ctx ps md w calls = (calls, w)"
  by (induction ps) simp_all

subsection \<open>Order of the request transformers\<close>

text \<open>
  Claim C2. Let the registry be the result of registering the request transformers
  \<open>ps\<close>, in any order, with a \<open>sort.Slice\<close> that keeps its contract. Then the chain
  holds exactly the registered transformers in ascending order of \<open>Priority()\<close>;
  \<open>ApplyRequestTransformers\<close> calls transformers in ascending order of priority; when
  no transformer fails it has called every enabled transformer of the chain and its
  result is the body passed through them one after the other, each fed the output of
  the one before. In particular, for three enabled transformers of priorities 10, 50 and
  1000 that do not fail, the result is \<open>t1000(t50(t10(input)))\<close> with a nil error,
  whatever the order of registration.
\<close>

theorem request_transformers_priority_order:
  assumes c: "sort_Slice_contract srt by_Priority"
    and r: "r = foldl (RegisterRequestTransformer srt) NewRegistry ps"
  shows
    "mset (requestTransformers r) = mset ps \<and>
     sorted (map Priority (requestTransformers r)) \<and>
     sorted (map Priority (fst (ApplyRequestTransformers ctx r request))) \<and>
     (snd (snd (ApplyRequestTransformers ctx r request)) = None \<longrightarrow>
        fst (ApplyRequestTransformers ctx r request) =
          filter (\<lambda>p. Enabled p ctx) (requestTransformers r) \<and>
        fst (snd (ApplyRequestTransformers ctx r request)) =
          foldl (\<lambda>b p. fst (TransformRequest p ctx b)) request
            (filter (\<lambda>p. Enabled p ctx) (requestTransformers r))) \<and>
     (\<forall>t10 t50 t1000.
        mset ps = {#t10, t50, t1000#} \<and>
        Priority t10 = 10 \<and> Priority t50 = 50 \<and> Priority t1000 = 1000 \<and>
        Enabled t10 ctx \<and> Enabled t50 ctx \<and> Enabled t1000 ctx \<and>
        (\<forall>b. snd (TransformRequest t10 ctx b) = None \<and>
             snd (TransformRequest t50 ctx b) = None \<and>
             snd (TransformRequest t1000 ctx b) = None)
        \<longrightarrow>
        snd (ApplyRequestTransformers ctx r request) =
          (fst (TransformRequest t1000 ctx
             (fst (TransformRequest t50 ctx (fst (TransformRequest t10 ctx request))))),
           None))"
proof -
  have m: "mset (requestTransformers r) = mset ps"
    using registered_request_mset [OF c, of NewRegistry ps] r by (simp add: NewRegistry_def)
  have s: "sorted (map Priority (requestTransformers r))"
    using registered_request_sorted [OF c, of ps] r by simp
  have cs: "sorted (map Priority (fst (ApplyRequestTransformers ctx r request)))"
    unfolding ApplyRequestTransformers_def by (rule applyLoop_calls_sorted [OF s])
  have ok: "snd (snd (ApplyRequestTransformers ctx r request)) = None \<longrightarrow>
        fst (ApplyRequestTransformers ctx r request) =
          filter (\<lambda>p. Enabled p ctx) (requestTransformers r) \<and>
        fst (snd (ApplyRequestTransformers ctx r request)) =
          foldl (\<lambda>b p. fst (TransformRequest p ctx b)) request
            (filter (\<lambda>p. Enabled p ctx) (requestTransformers r))"
  proof
    assume n: "snd (snd (ApplyRequestTransformers ctx r request)) = None"
    obtain cs out e where
      a: "applyLoop TransformRequest ctx (requestTransformers r) request [] = (cs, out, e)"
      by (cases "applyLoop TransformRequest ctx (requestTransformers r) request []") auto
    with n have "e = None" by (simp add: ApplyRequestTransformers_def)
    with a show "fst (ApplyRequestTransformers ctx r request) =
          filter (\<lambda>p. Enabled p ctx) (requestTransformers r) \<and>
        fst (snd (ApplyRequestTransformers ctx r request)) =
          foldl (\<lambda>b p. fst (TransformRequest p ctx b)) request
            (filter (\<lambda>p. Enabled p ctx) (requestTransformers r))"
      using applyLoop_success [of TransformRequest ctx "requestTransformers r" request "[]" cs out]
      by (simp add: ApplyRequestTransformers_def)
  qed
  have three: "\<forall>t10 t50 t1000.
        mset ps = {#t10, t50, t1000#} \<and>
        Priority t10 = 10 \<and> Priority t50 = 50 \<and> Priority t1000 = 1000 \<and>
        Enabled t10 ctx \<and> Enabled t50 ctx \<and> Enabled t1000 ctx \<and>
        (\<forall>b. snd (TransformRequest t10 ctx b) = None \<and>
             snd (TransformRequest t50 ctx b) = None \<and>
             snd (TransformRequest t1000 ctx b) = None)
        \<longrightarrow>
        snd (ApplyRequestTransformers ctx r request) =
          (fst (TransformRequest t1000 ctx
             (fst (TransformRequest t50 ctx (fst (TransformRequest t10 ctx request))))),
           None)"
  proof (intro allI impI)
    fix t10 t50 t1000
    assume h: "mset ps = {#t10, t50, t1000#} \<and>
        Priority t10 = 10 \<and> Priority t50 = 50 \<and> Priority t1000 = 1000 \<and>
        Enabled t10 ctx \<and> Enabled t50 ctx \<and> Enabled t1000 ctx \<and>
        (\<forall>b. snd (TransformRequest t10 ctx b) = None \<and>
             snd (TransformRequest t50 ctx b) = None \<and>
             snd (TransformRequest t1000 ctx b) = None)"
    have chain: "requestTransformers r = [t10, t50, t1000]"
      using three_sorted_unique [of "requestTransformers r" t10 t50 t1000] m s h by simp
    define b1 where "b1 = fst (TransformRequest t10 ctx request)"
    define b2 where "b2 = fst (TransformRequest t50 ctx b1)"
    define b3 where "b3 = fst (TransformRequest t1000 ctx b2)"
    have e1: "TransformRequest t10 ctx request = (b1, None)"
      using h by (simp add: b1_def prod_eq_iff)
    have e2: "TransformRequest t50 ctx b1 = (b2, None)"
      using h by (simp add: b2_def prod_eq_iff)
    have e3: "TransformRequest t1000 ctx b2 = (b3, None)"
      using h by (simp add: b3_def prod_eq_iff)
    have "snd (ApplyRequestTransformers ctx r request) = (b3, None)"
      using h by (simp add: ApplyRequestTransformers_def chain e1 e2 e3)
    then show "snd (ApplyRequestTransformers ctx r request) =
          (fst (TransformRequest t1000 ctx
             (fst (TransformRequest t50 ctx (fst (TransformRequest t10 ctx request))))),
           None)"
      by (simp add: b1_def b2_def b3_def)
  qed
  show ?thesis using m s cs ok three by blast
qed

theorem request_transformers_priority_order_witness:
  "sort_Slice_contract insertion_sort
     (by_Priority :: unit RequestTransformer \<Rightarrow> unit RequestTransformer \<Rightarrow> bool) \<and>
   snd (ApplyRequestTransformers ()
          (foldl (RegisterRequestTransformer insertion_sort) (NewRegistry :: (unit, nat) Registry)
             [request_plugin ''last'' 1000 True (appends ''-1000''),
              request_plugin ''first'' 10 True (appends ''-10''),
              request_plugin ''middle'' 50 True (appends ''-50'')])
          ''in'') = (''in-10-50-1000'', None)"
proof -
  let ?ps = "[request_plugin ''last'' 1000 True (appends ''-1000''),
              request_plugin ''first'' 10 True (appends ''-10''),
              request_plugin ''middle'' 50 True (appends ''-50'')]"
  let ?r = "foldl (RegisterRequestTransformer insertion_sort) (NewRegistry :: (unit, nat) Registry) ?ps"
  have c: "sort_Slice_contract insertion_sort
     (by_Priority :: unit RequestTransformer \<Rightarrow> unit RequestTransformer \<Rightarrow> bool)"
    by (rule insertion_sort_contract)
  note th = request_transformers_priority_order [OF c refl, of ?ps "()" "''in''"]
  then have "\<forall>t10 t50 t1000.
        mset ?ps = {#t10, t50, t1000#} \<and>
        Priority t10 = 10 \<and> Priority t50 = 50 \<and> Priority t1000 = 1000 \<and>
        Enabled t10 () \<and> Enabled t50 () \<and> Enabled t1000 () \<and>
        (\<forall>b. snd (TransformRequest t10 () b) = None \<and>
             snd (TransformRequest t50 () b) = None \<and>
             snd (TransformRequest t1000 () b) = None)
        \<longrightarrow>
        snd (ApplyRequestTransformers () ?r ''in'') =
          (fst (TransformRequest t1000 ()
             (fst (TransformRequest t50 () (fst (TransformRequest t10 () ''in''))))),
           None)"
    by (elim conjE)
  from this [rule_format, of "request_plugin ''first'' 10 True (appends ''-10'')"
      "request_plugin ''middle'' 50 True (appends ''-50'')"
      "request_plugin ''last'' 1000 True (appends ''-1000'')"]
  have "snd (ApplyRequestTransformers () ?r ''in'') = (''in-10-50-1000'', None)"
    by (simp add: request_plugin_def appends_def add_mset_commute)
  with c show ?thesis by simp
qed

subsection \<open>Disabled plugins\<close>

text \<open>
  Claim C7. A plugin whose \<open>Enabled(ctx)\<close> is false is never among the plugins called
  by \<open>ApplyRequestTransformers\<close>, \<open>ApplyResponseTransformers\<close>,
  \<open>ApplyStreamTransformers\<close>, \<open>NotifyRequest\<close> or \<open>NotifyResponse\<close>; a transformer
  chain whose plugins are all disabled returns its input bytes and a nil error, having
  called nothing, and observers that are all disabled leave the world as it was.
\<close>

theorem disabled_plugins_never_invoked:
  "(\<forall>p. \<not> Enabled p ctx \<longrightarrow> p \<notin> set (fst (ApplyRequestTransformers ctx r request))) \<and>
   (\<forall>p. \<not> Enabled p ctx \<longrightarrow> p \<notin> set (fst (ApplyResponseTransformers ctx r response))) \<and>
   (\<forall>p. \<not> Enabled p ctx \<longrightarrow> p \<notin> set (fst (ApplyStreamTransformers ctx r chunk))) \<and>
   (\<forall>p. \<not> Enabled p ctx \<longrightarrow> p \<notin> set (fst (NotifyRequest ctx r reqmd w))) \<and>
   (\<forall>p. \<not> Enabled p ctx \<longrightarrow> p \<notin> set (fst (NotifyResponse ctx r respmd w))) \<and>
   ((\<forall>p\<in>set (requestTransformers r). \<not> Enabled p ctx) \<longrightarrow>
      ApplyRequestTransformers ctx r request = ([], request, None)) \<and>
   ((\<forall>p\<in>set (responseTransformers r). \<not> Enabled p ctx) \<longrightarrow>
      ApplyResponseTransformers ctx r response = ([], response, None)) \<and>
   ((\<forall>p\<in>set (streamTransformers r). \<not> Enabled p ctx) \<longrightarrow>
      ApplyStreamTransformers ctx r chunk = ([], chunk, None)) \<and>
   ((\<forall>p\<in>set (metadataPlugins r). \<not> Enabled p ctx) \<longrightarrow>
      NotifyRequest ctx r reqmd w = ([], w) \<and> NotifyResponse ctx r respmd w = ([], w))"
proof -
  have a: "\<forall>p. \<not> Enabled p ctx \<longrightarrow> p \<notin> set (fst (ApplyRequestTransformers ctx r request))"
    unfolding ApplyRequestTransformers_def by (auto dest: applyLoop_calls_enabled)
  have b: "\<forall>p. \<not> Enabled p ctx \<longrightarrow> p \<notin> set (fst (ApplyResponseTransformers ctx r response))"
    unfolding ApplyResponseTransformers_def by (auto dest: applyLoop_calls_enabled)
  have c: "\<forall>p. \<not> Enabled p ctx \<longrightarrow> p \<notin> set (fst (ApplyStreamTransformers ctx r chunk))"
    unfolding ApplyStreamTransformers_def by (auto dest: applyLoop_calls_enabled)
  have d: "\<forall>p. \<not> Enabled p ctx \<longrightarrow> p \<notin> set (fst (NotifyRequest ctx r reqmd w))"
    by (simp add: NotifyRequest_def notifyLoop_calls)
  have e: "\<forall>p. \<not> Enabled p ctx \<longrightarrow> p \<notin> set (fst (NotifyResponse ctx r respmd w))"
    by (simp add: NotifyResponse_def notifyLoop_calls)
  have f: "(\<forall>p\<in>set (requestTransformers r). \<not> Enabled p ctx) \<longrightarrow>
      ApplyRequestTransformers ctx r request = ([], request, None)"
    by (simp add: ApplyRequestTransformers_def applyLoop_all_disabled)
  have g: "(\<forall>p\<in>set (responseTransformers r). \<not> Enabled p ctx) \<longrightarrow>
      ApplyResponseTransformers ctx r response = ([], response, None)"
    by (simp add: ApplyResponseTransformers_def applyLoop_all_disabled)
  have h: "(\<forall>p\<in>set (streamTransformers r). \<not> Enabled p ctx) \<longrightarrow>
      ApplyStreamTransformers ctx r chunk = ([], chunk, None)"
    by (simp add: ApplyStreamTransformers_def applyLoop_all_disabled)
  have i: "(\<forall>p\<in>set (metadataPlugins r). \<not> Enabled p ctx) \<longrightarrow>
      NotifyRequest ctx r reqmd w = ([], w) \<and> NotifyResponse ctx r respmd w = ([], w)"
    by (simp add: NotifyRequest_def NotifyResponse_def notifyLoop_all_disabled)
  show ?thesis using a b c d e f g h i by blast
qed

theorem disabled_plugins_never_invoked_witness:
  "request_plugin ''off'' 5 False (appends ''-off'')
     \<notin> set (fst (ApplyRequestTransformers () example_registry ''in'')) \<and>
   counting_observer ''off'' False
     \<notin> set (fst (NotifyRequest () example_registry example_request_metadata 0)) \<and>
   ApplyStreamTransformers () example_registry ''chunk'' = ([], ''chunk'', None)"
proof -
  note th = disabled_plugins_never_invoked
    [of "()" example_registry "''in''" "''resp''" "''chunk''" example_request_metadata 0 example_response_metadata]
  have 1: "request_plugin ''off'' 5 False (appends ''-off'')
     \<notin> set (fst (ApplyRequestTransformers () example_registry ''in''))"
    using th by (simp add: request_plugin_def)
  have 2: "counting_observer ''off'' False
     \<notin> set (fst (NotifyRequest () example_registry example_request_metadata 0))"
    using th by (simp add: counting_observer_def)
  have 3: "ApplyStreamTransformers () example_registry ''chunk'' = ([], ''chunk'', None)"
    using th by (simp add: example_registry_def stream_plugin_def)
  show ?thesis using 1 2 3 by simp
qed

subsection \<open>Failing plugins\<close>



subsection \<open>Masking of credentials\<close>

text \<open>
  Claim C10. \<open>maskString\<close> returns the empty string for the empty string, four stars
  for a string of at most 8 bytes, and otherwise the first four bytes, four stars and the
  last four bytes. It reveals nothing else: two non-empty strings of at most 8 bytes have
  the same mask, and so have two longer strings with the same first four and last four
  bytes. For a key that is not a string \<open>maskAPIKey\<close> returns the empty string (no
  key), the number of keys of a list, or a fixed placeholder.
\<close>

theorem maskString_maskAPIKey_reveal:
  "maskString s =
     (if s = [] then [] else if length s \<le> 8 then ''****''
      else take 4 s @ ''****'' @ drop (length s - 4) s) \<and>
   (\<forall>t. (s \<noteq> [] \<and> length s \<le> 8 \<and> t \<noteq> [] \<and> length t \<le> 8) \<or>
        (8 < length s \<and> 8 < length t \<and> take 4 t = take 4 s \<and>
         drop (length t - 4) t = drop (length s - 4) s)
        \<longrightarrow> maskString t = maskString s) \<and>
   ((\<forall>v. key \<noteq> String v) \<longrightarrow>
      maskAPIKey key =
        (case key of Nil \<Rightarrow> []
         | Slice v \<Rightarrow> ''['' @ decimal (length v) @ '' keys configured]''
         | _ \<Rightarrow> ''[configured]''))"
  by (cases key) (auto simp: maskString_def)

theorem maskString_maskAPIKey_reveal_witness:
  "maskString ''sk-ant-api-key-0001'' = ''sk-a****0001'' \<and>
   maskString ''sk-a-another-key-0001'' = maskString ''sk-ant-api-key-0001'' \<and>
   maskString ''hunter2'' = maskString ''12345678'' \<and>
   maskAPIKey (Slice [String ''key-one'', String ''key-two'']) = ''[2 keys configured]'' \<and>
   maskAPIKey (Float64 7) = ''[configured]''"
  using maskString_maskAPIKey_reveal [of "''sk-ant-api-key-0001''" "Slice [String ''key-one'', String ''key-two'']"]
    maskString_maskAPIKey_reveal [of "''12345678''" "Float64 7"]
  by (simp add: maskString_def)

subsection \<open>The statistics store\<close>

lemma sint_add_exact:
  fixes a b :: "64 word"
  assumes "- (2 ^ 63) \<le> sint a + sint b" "sint a + sint b < 2 ^ 63"
  shows "sint (a + b) = sint a + sint b"
  using assms by (simp add: sint_word_ariths signed_take_bit_int_eq_self)

text \<open>
  Claim C9. A call of \<open>LogRequest\<close> on statistics with at most 100 recent requests
  leaves at most 100: the new entry is appended, and when that makes 101 the oldest
  entry is dropped. The call adds 1 to \<open>TotalRequests\<close> and adds
  \<open>inputTokens + outputTokens\<close> to \<open>TotalTokens\<close> and to the model's entry of
  \<open>TokensByModel\<close>, in Go's 64-bit arithmetic; where the sums stay within 64 bits the
  signed values grow by exactly those amounts.
\<close>

theorem LogRequest_counters:
  assumes "length (RecentRequests stats) \<le> 100"
  shows
    "(let stats' = LogRequest stats now provider model inputTokens outputTokens durationMs status;
          modelKey = provider @ ''/'' @ model;
          entry = \<lparr>Timestamp = now, log_Provider = provider, log_Model = model,
                   InputTokens = inputTokens, OutputTokens = outputTokens,
                   DurationMs = durationMs, Status = status\<rparr>
      in length (RecentRequests stats') \<le> 100 \<and>
         (length (RecentRequests stats) < 100 \<longrightarrow>
            RecentRequests stats' = RecentRequests stats @ [entry]) \<and>
         (length (RecentRequests stats) = 100 \<longrightarrow>
            RecentRequests stats' = tl (RecentRequests stats) @ [entry]) \<and>
         TotalRequests stats' = TotalRequests stats + 1 \<and>
         TotalTokens stats' = TotalTokens stats + (inputTokens + outputTokens) \<and>
         counter (TokensByModel stats') modelKey =
           counter (TokensByModel stats) modelKey + (inputTokens + outputTokens) \<and>
         (sint (TotalRequests stats) < 2 ^ 63 - 1 \<longrightarrow>
            sint (TotalRequests stats') = sint (TotalRequests stats) + 1) \<and>
         (- (2 ^ 63) \<le> sint inputTokens + sint outputTokens \<and>
          sint inputTokens + sint outputTokens < 2 ^ 63 \<and>
          - (2 ^ 63) \<le> sint (TotalTokens stats) + (sint inputTokens + sint outputTokens) \<and>
          sint (TotalTokens stats) + (sint inputTokens + sint outputTokens) < 2 ^ 63 \<longrightarrow>
            sint (TotalTokens stats') =
              sint (TotalTokens stats) + (sint inputTokens + sint outputTokens)))"
proof -
  have one: "sint (TotalRequests stats) < 2 ^ 63 - 1 \<Longrightarrow>
      sint (TotalRequests stats + 1) = sint (TotalRequests stats) + 1"
    using sint_add_exact [of "TotalRequests stats" 1] sint_ge [of "TotalRequests stats"]
    by simp
  have tok: "- (2 ^ 63) \<le> sint inputTokens + sint outputTokens \<Longrightarrow>
      sint inputTokens + sint outputTokens < 2 ^ 63 \<Longrightarrow>
      - (2 ^ 63) \<le> sint (TotalTokens stats) + (sint inputTokens + sint outputTokens) \<Longrightarrow>
      sint (TotalTokens stats) + (sint inputTokens + sint outputTokens) < 2 ^ 63 \<Longrightarrow>
      sint (TotalTokens stats + (inputTokens + outputTokens)) =
        sint (TotalTokens stats) + (sint inputTokens + sint outputTokens)"
    using sint_add_exact [of inputTokens outputTokens]
      sint_add_exact [of "TotalTokens stats" "inputTokens + outputTokens"]
    by simp
  show ?thesis
    using assms one tok
    by (cases "RecentRequests stats")
       (auto simp: LogRequest_def Let_def counter_def)
qed

theorem LogRequest_counters_witness:
  "length (RecentRequests
      (LogRequest ((NewStats 0)\<lparr>RecentRequests :=
          replicate 100 \<lparr>Timestamp = 0, log_Provider = ''openai'', log_Model = ''gpt-4o'',
            InputTokens = 1, OutputTokens = 2, DurationMs = 3, Status = 200\<rparr>\<rparr>)
        1 ''openai'' ''gpt-4o'' 7 11 42 200)) \<le> 100 \<and>
   TotalRequests (LogRequest (NewStats 0) 1 ''openai'' ''gpt-4o'' 7 11 42 200) = 1 \<and>
   TotalTokens (LogRequest (NewStats 0) 1 ''openai'' ''gpt-4o'' 7 11 42 200) = 18 \<and>
   counter (TokensByModel (LogRequest (NewStats 0) 1 ''openai'' ''gpt-4o'' 7 11 42 200))
     ''openai/gpt-4o'' = 18"
proof -
  let ?e = "\<lparr>Timestamp = 0, log_Provider = ''openai'', log_Model = ''gpt-4o'',
            InputTokens = 1, OutputTokens = 2, DurationMs = 3, Status = 200 :: 64 word\<rparr>"
  let ?full = "(NewStats 0)\<lparr>RecentRequests := replicate 100 ?e\<rparr>"
  have h1: "length (RecentRequests ?full) \<le> 100" by simp
  have h0: "length (RecentRequests (NewStats 0)) \<le> 100" by (simp add: NewStats_def)
  have 1: "length (RecentRequests (LogRequest ?full 1 ''openai'' ''gpt-4o'' 7 11 42 200)) \<le> 100"
    using LogRequest_counters [OF h1, of 1 "''openai''" "''gpt-4o''" 7 11 42 200]
    by (simp add: Let_def)
  have 2: "TotalRequests (LogRequest (NewStats 0) 1 ''openai'' ''gpt-4o'' 7 11 42 200) = 1 \<and>
   TotalTokens (LogRequest (NewStats 0) 1 ''openai'' ''gpt-4o'' 7 11 42 200) = 18 \<and>
   counter (TokensByModel (LogRequest (NewStats 0) 1 ''openai'' ''gpt-4o'' 7 11 42 200))
     ''openai/gpt-4o'' = 18"
    using LogRequest_counters [OF h0, of 1 "''openai''" "''gpt-4o''" 7 11 42 200]
    by (simp add: Let_def NewStats_def counter_def)
  show ?thesis using 1 2 by simp
qed

subsection \<open>The provider registry\<close>

text \<open>
  \<open>Initialize\<close> never removes an adapter, and an entry named after one of the six
  cases of its switch is found afterwards, when every adapter's \<open>Name()\<close> is the name
  of its configuration entry.
\<close>

lemma Register_keeps:
  "providers r k \<noteq> None \<Longrightarrow> providers (Register nm r a) k \<noteq> None"
  by (simp add: Register_def)

lemma Initialize_case_cases:
  "Initialize_case nm r c = r \<or> (\<exists>a. Initialize_case nm r c = Register nm r a)"
  by (auto simp: Initialize_case_def)

lemma Initialize_case_keeps:
  "providers r k \<noteq> None \<Longrightarrow> providers (Initialize_case nm r c) k \<noteq> None"
  using Initialize_case_cases [of nm r c] Register_keeps [of r k nm] by metis

lemma Initialize_keeps:
  "providers r k \<noteq> None \<Longrightarrow> providers (Initialize nm r cfgs) k \<noteq> None"
proof (induction cfgs arbitrary: r)
  case Nil
  then show ?case by simp
next
  case (Cons c cfgs)
  show ?case
    using Cons.IH [OF Initialize_case_keeps [OF Cons.prems]] by simp
qed

lemma Initialize_case_supported:
  assumes "Provider_Name cfg \<in> {''openrouter'', ''openai'', ''anthropic'', ''nvidia'', ''gemini'', ''ollama''}"
  shows "Initialize_case nm r cfg = Register nm r (AnthropicAdapter (NewAnthropicProvider cfg)) \<or>
         (\<exists>f. Initialize_case nm r cfg = Register nm r (OtherAdapter f cfg))"
  using assms by (auto simp: Initialize_case_def)

lemma Initialize_case_registers:
  assumes nm: "\<forall>f c. nm f c = Provider_Name c"
    and s: "Provider_Name cfg \<in> {''openrouter'', ''openai'', ''anthropic'', ''nvidia'', ''gemini'', ''ollama''}"
  shows "providers (Initialize_case nm r cfg) (Provider_Name cfg) \<noteq> None"
proof -
  have a: "providers (Register nm r (OtherAdapter f cfg)) (Provider_Name cfg) \<noteq> None" for f
    using nm by (simp add: Register_def)
  have b: "providers (Register nm r (AnthropicAdapter (NewAnthropicProvider cfg))) (Provider_Name cfg) \<noteq> None"
    by (simp add: Register_def Anthropic_Name_def NewAnthropicProvider_def)
  show ?thesis
    using Initialize_case_supported [OF s, of nm r] a b by metis
qed

lemma Initialize_registers_supported:
  assumes "\<forall>f c. nm f c = Provider_Name c"
    and "cfg \<in> set cfgs"
    and "Provider_Name cfg \<in> {''openrouter'', ''openai'', ''anthropic'', ''nvidia'', ''gemini'', ''ollama''}"
  shows "Get (Initialize nm r cfgs) (Provider_Name cfg) \<noteq> None"
  using assms(2)
proof (induction cfgs arbitrary: r)
  case Nil
  then show ?case by simp
next
  case (Cons c cfgs)
  show ?case
  proof (cases "cfg = c")
    case True
    then show ?thesis
      using Initialize_keeps [OF Initialize_case_registers [OF assms(1) assms(3), of r], of nm cfgs]
      by (simp add: Get_def)
  next
    case False
    then show ?thesis using Cons by simp
  qed
qed

text \<open>
  Claim C6, at the entries the claim names that the switch of \<open>Initialize\<close> has no case
  for: after \<open>Initialize\<close> on a configuration whose only provider is named
  \<open>deepseek\<close>, \<open>Get\<close> finds no adapter under that name, and the same for \<open>groq\<close>.
  The claim says an adapter is found.
\<close>

theorem Initialize_skips_deepseek_and_groq:
  "Get (Initialize nm providers_NewRegistry
          [\<lparr>Provider_Name = ''deepseek'', Provider_APIBase = ''https://api.deepseek.com'',
            Provider_APIKey = String ''sk-1'', Provider_DefaultModels = [''deepseek-chat'']\<rparr>])
       ''deepseek'' = None \<and>
   Get (Initialize nm providers_NewRegistry
          [\<lparr>Provider_Name = ''groq'', Provider_APIBase = ''https://api.groq.com'',
            Provider_APIKey = String ''gsk-1'', Provider_DefaultModels = [''llama3'']\<rparr>])
       ''groq'' = None"
  by (simp add: Initialize_case_def Get_def providers_NewRegistry_def)

subsection \<open>The built-in plugins\<close>

text \<open>
  \<open>replaceAll\<close> returns its first argument, so the response filter changes no text, no
  block and no response.
\<close>

lemma replaceAll_same: "replaceAll s old new = s"
  by (simp add: replaceAll_def)

lemma replaceAll_fold:
  "foldl (\<lambda>filtered word. replaceAll filtered word new) s ws = s"
  by (induction ws) (simp_all add: replaceAll_same)

lemma ResponseFilter_filtered_same: "ResponseFilter_filtered p s = s"
  by (simp add: ResponseFilter_filtered_def replaceAll_fold)

lemma assign_same: "map_of m k = Some v \<Longrightarrow> assign m k v = m"
  by (induction m) (auto split: if_splits)

lemma ResponseFilter_item_same: "ResponseFilter_item p item = item"
  by (auto simp: ResponseFilter_item_def ResponseFilter_filtered_same assign_same
      split: any.splits option.splits)

lemma ResponseFilter_filter_same: "ResponseFilter_filter p resp = resp"
proof -
  have "map (ResponseFilter_item p) content = content" for content
    by (induction content) (simp_all add: ResponseFilter_item_same)
  then show ?thesis
    by (auto simp: ResponseFilter_filter_def assign_same split: any.splits option.splits)
qed

lemma ResponseFilter_TransformResponse_same:
  "unmarshal response = Inr resp \<Longrightarrow>
   ResponseFilter_TransformResponse unmarshal marshal p ctx response = marshal resp"
  by (cases resp) (simp_all add: ResponseFilter_TransformResponse_def ResponseFilter_filter_same)

text \<open>
  Claim C4, at a response whose text block contains a configured word: with the word
  list \<open>secret\<close> and the replacement \<open>[redacted]\<close>, the filter returns the text
  \<open>the secret plan\<close> as it was. The claim says every occurrence of the word is replaced.
\<close>

theorem ResponseFilter_replaces_nothing:
  "ResponseFilter_Enabled
     \<lparr>filterWords = [''secret''], replacement = ''[redacted]'', filter_enabled = True\<rparr> ctx \<and>
   ResponseFilter_filter
     \<lparr>filterWords = [''secret''], replacement = ''[redacted]'', filter_enabled = True\<rparr>
     [(''role'', String ''assistant''),
      (''content'', Slice [Map [(''type'', String ''text''), (''text'', String ''the secret plan'')]])]
   = [(''role'', String ''assistant''),
      (''content'', Slice [Map [(''type'', String ''text''), (''text'', String ''the secret plan'')]])]"
  by (simp add: ResponseFilter_Enabled_def ResponseFilter_filter_def ResponseFilter_item_def
      ResponseFilter_filtered_def replaceAll_def)

text \<open>
  The injector always writes \<open>system\<close> and touches no other field. It prepends the
  prompt and a blank line to an existing non-empty string; in every other case it writes
  the prompt alone.
\<close>

lemma map_of_assign: "map_of (assign m k v) = (map_of m)(k \<mapsto> v)"
  by (induction m) auto

lemma SystemPromptInjector_inject_system:
  "map_of (SystemPromptInjector_inject p req) =
     (map_of req)(''system'' \<mapsto>
        String (case map_of req ''system'' of
                  Some (String existingSystem) \<Rightarrow>
                    if existingSystem \<noteq> []
                    then systemPrompt p @ [CHR 0x0A, CHR 0x0A] @ existingSystem
                    else systemPrompt p
                | _ \<Rightarrow> systemPrompt p))"
  by (simp add: SystemPromptInjector_inject_def map_of_assign split: option.splits any.splits)

text \<open>
  Claim C5, at a request whose \<open>system\<close> is a list of structured blocks: the injector
  replaces the list by the prompt alone, and the existing block is gone. The claim says
  the existing content is preserved, with the prompt before it.
\<close>

theorem SystemPromptInjector_overwrites_blocks:
  "SystemPromptInjector_Enabled \<lparr>systemPrompt = ''Be brief.'', injector_enabled = True\<rparr> ctx \<and>
   SystemPromptInjector_inject \<lparr>systemPrompt = ''Be brief.'', injector_enabled = True\<rparr>
     [(''model'', String ''claude-sonnet''),
      (''system'', Slice [Map [(''type'', String ''text''), (''text'', String ''You are Claude Code.'')]])]
   = [(''model'', String ''claude-sonnet''), (''system'', String ''Be brief.'')]"
  by (simp add: SystemPromptInjector_Enabled_def SystemPromptInjector_inject_def)

subsection \<open>The stream translator\<close>




































end
